theory Spec2Isabelle
  imports Main
begin

section \<open>Data model of the \<open>useClipboard\<close> hook\<close>

text \<open>
  \<^verbatim>\<open>type CopyStatus = 'idle' | 'resolved' | 'rejected'\<close>
\<close>

datatype CopyStatus = Idle | Resolved | Rejected

text \<open>
  \<^verbatim>\<open>type TransitionStatus = 'entering' | 'entered' | 'exiting' | 'exited'\<close> and
  \<^verbatim>\<open>type SequenceStatus = Exclude<TransitionStatus, 'exited'>\<close>.
  The three statuses that carry a duration are a type of their own, as in the source;
  a transition status is one of them or \<open>exited\<close>. The tables of the source are keyed
  by \<open>SequenceStatus\<close>, and TypeScript accepts a lookup only where the status has been
  narrowed to it.
\<close>

datatype SequenceStatus = Entering | Entered | Exiting

datatype TransitionStatus = Sequence SequenceStatus | Exited

text \<open>
  The mapped types \<^verbatim>\<open>{ [S in SequenceStatus]: T }\<close> (\<open>Durations\<close>,
  \<open>NextStatusStates\<close>) and \<^verbatim>\<open>{ [S in SequenceStatus]?: number }\<close>
  (\<open>SequenceTimeout\<close>, an absent or undefined key is \<open>None\<close>): one record with the
  three keys, and the lookup \<open>table[status]\<close>.
\<close>

record 'a BySequenceStatus =
  entering :: 'a
  entered :: 'a
  exiting :: 'a

fun index :: "'a BySequenceStatus \<Rightarrow> SequenceStatus \<Rightarrow> 'a" where
  "index t Entering = entering t"
| "index t Entered = entered t"
| "index t Exiting = exiting t"

text \<open>Durations are JavaScript numbers holding milliseconds; they are modelled as integers.\<close>

type_synonym Durations = "int BySequenceStatus"

type_synonym SequenceTimeout = "int option BySequenceStatus"

record StatusState =
  copyStatus :: CopyStatus
  transitionStatus :: TransitionStatus

type_synonym NextStatusStates = "StatusState BySequenceStatus"

text \<open>The value of an \<open>Error\<close> is its message.\<close>

type_synonym Error = string

record UseClipboardState = StatusState +
  error :: "Error option"

text \<open>\<^verbatim>\<open>type Text = string | number\<close>\<close>

datatype Text = Str string | Num int

text \<open>\<^verbatim>\<open>timeout?: number | SequenceTimeout\<close>; an absent option is \<open>None\<close>.\<close>

datatype Timeout = Number int | Object SequenceTimeout

record UseClipboardOptions =
  options_text :: "Text option"
  options_timeout :: "Timeout option"

section \<open>Constants and the zero-duration skip\<close>

definition defaultDurations :: Durations where
  "defaultDurations = \<lparr>entering = 0, entered = 0, exiting = 0\<rparr>"

fun nextStatuses :: "TransitionStatus \<Rightarrow> TransitionStatus" where
  "nextStatuses Exited = Sequence Entering"
| "nextStatuses (Sequence Entering) = Sequence Entered"
| "nextStatuses (Sequence Entered) = Sequence Exiting"
| "nextStatuses (Sequence Exiting) = Exited"

definition defaultNextStatusStates :: NextStatusStates where
  "defaultNextStatusStates =
     \<lparr>entering = \<lparr>copyStatus = Resolved, transitionStatus = Sequence Entered\<rparr>,
      entered = \<lparr>copyStatus = Resolved, transitionStatus = Sequence Exiting\<rparr>,
      exiting = \<lparr>copyStatus = Idle, transitionStatus = Exited\<rparr>\<rparr>"

text \<open>
  The loop of \<open>getTransitionStatus\<close>, on its two variables:
  \<^verbatim>\<open>
  while (status !== 'exited' && duration <= 0) {
    duration = durations[status]
    if (duration <= 0) {
      status = nextStatusStates[status].transitionStatus
    }
  }
  return status
  \<close>
  The type \<open>NextStatusStates\<close> admits tables on which the loop never ends (a
  zero-duration status that is its own successor), so the result is an option and
  \<open>None\<close> is "does not return".
\<close>

partial_function (option) getTransitionStatus_loop ::
  "TransitionStatus \<Rightarrow> int \<Rightarrow> NextStatusStates \<Rightarrow> Durations \<Rightarrow> TransitionStatus option"
where
  "getTransitionStatus_loop status duration nextStatusStates durations =
     (case status of
        Exited \<Rightarrow> Some status
      | Sequence s \<Rightarrow>
          if duration \<le> 0 then
            (if index durations s \<le> 0
             then getTransitionStatus_loop (transitionStatus (index nextStatusStates s))
                    (index durations s) nextStatusStates durations
             else getTransitionStatus_loop status (index durations s) nextStatusStates durations)
          else Some status)"

declare getTransitionStatus_loop.simps [code]

definition getTransitionStatus ::
  "TransitionStatus \<Rightarrow> NextStatusStates \<Rightarrow> Durations \<Rightarrow> TransitionStatus option"
where
  "getTransitionStatus status nextStatusStates durations =
     getTransitionStatus_loop status 0 nextStatusStates durations"

definition defaultState :: UseClipboardState where
  "defaultState = \<lparr>copyStatus = Idle, transitionStatus = Exited, error = None\<rparr>"

section \<open>The skip, in the words of its specification\<close>

text \<open>
  "While the phase is not \<open>exited\<close> and its configured duration is \<open>\<le> 0\<close>, replace the
  phase with the phase component of \<open>nextPhaseMap[phase]\<close>": \<open>skip_stops\<close> is the
  negation of the loop condition on a phase, \<open>skip_next\<close> the replacement.
\<close>

fun skip_stops :: "Durations \<Rightarrow> TransitionStatus \<Rightarrow> bool" where
  "skip_stops durations Exited = True"
| "skip_stops durations (Sequence s) = (0 < index durations s)"

fun skip_next :: "NextStatusStates \<Rightarrow> TransitionStatus \<Rightarrow> TransitionStatus" where
  "skip_next nextPhaseMap Exited = Exited"
| "skip_next nextPhaseMap (Sequence s) = transitionStatus (index nextPhaseMap s)"

section \<open>The memoised values of \<open>useClipboard\<close>\<close>

text \<open>
  \<open>Number.prototype.toString\<close> on an integer: its decimal digits, with a minus sign
  for a negative one. A template literal renders \<open>undefined\<close> as the word.
\<close>

definition digit :: "nat \<Rightarrow> char" where
  "digit n = ''0123456789'' ! n"

fun digits :: "nat \<Rightarrow> string" where
  "digits n = (if n < 10 then [digit n] else digits (n div 10) @ [digit (n mod 10)])"

definition number_toString :: "int \<Rightarrow> string" where
  "number_toString n = (if n < 0 then CHR ''-'' # digits (nat (- n)) else digits (nat n))"

fun template :: "int option \<Rightarrow> string" where
  "template None = ''undefined''"
| "template (Some n) = number_toString n"

fun toString :: "Text \<Rightarrow> string" where
  "toString (Str s) = s"
| "toString (Num n) = number_toString n"

text \<open>
  The value of \<open>hasTimeoutChange\<close>, the dependency of the two memoised tables: the
  string \<^verbatim>\<open>`${timeout['entering']}${timeout['entered']}${timeout['exiting']}`\<close>
  for an object, the timeout itself (a number or \<open>undefined\<close>) otherwise.
\<close>

datatype Fingerprint = FUndefined | FNumber int | FString string

fun hasTimeoutChange_memo :: "Timeout option \<Rightarrow> Fingerprint" where
  "hasTimeoutChange_memo (Some (Object timeout)) =
     FString (template (entering timeout) @ template (entered timeout) @ template (exiting timeout))"
| "hasTimeoutChange_memo (Some (Number n)) = FNumber n"
| "hasTimeoutChange_memo None = FUndefined"

text \<open>The \<open>??\<close> operator on an optional number.\<close>

fun nullish :: "int option \<Rightarrow> int \<Rightarrow> int" where
  "nullish None d = d"
| "nullish (Some n) d = n"

text \<open>The bodies of the \<open>useMemo\<close> calls for \<open>durations\<close> and \<open>nextStatusStates\<close>.\<close>

fun durations_memo :: "Timeout option \<Rightarrow> Durations" where
  "durations_memo (Some (Object timeout)) =
     \<lparr>entering = nullish (entering timeout) 0,
      entered = nullish (entered timeout) 0,
      exiting = nullish (exiting timeout) 0\<rparr>"
| "durations_memo (Some (Number n)) = defaultDurations\<lparr>entered := n\<rparr>"
| "durations_memo None = defaultDurations\<lparr>entered := 0\<rparr>"

fun nextStatusStates_memo :: "Timeout option \<Rightarrow> NextStatusStates" where
  "nextStatusStates_memo (Some (Object timeout)) = defaultNextStatusStates"
| "nextStatusStates_memo t =
     defaultNextStatusStates\<lparr>entered := \<lparr>copyStatus = Idle, transitionStatus = Exited\<rparr>\<rparr>"

section \<open>\<open>writeText\<close>\<close>

text \<open>
  The variables \<open>writeText\<close> closes over. \<open>useCallback\<close> keeps the closure of the
  render in which its dependencies \<open>[options.text, nextStatusStates, durations]\<close> last
  changed, so these are the values of that render.
\<close>

record Env =
  env_state :: UseClipboardState
  env_text :: "Text option"
  env_nextStatusStates :: NextStatusStates
  env_durations :: Durations

text \<open>\<^verbatim>\<open>writeText: (text?: Text | React.SyntheticEvent) => Promise<void>\<close>\<close>

datatype WriteArg = NoArg | TextArg Text | EventArg

text \<open>What a call does to the world outside it, in order.\<close>

datatype Effect = ClipboardWriteText string | SafeSetState UseClipboardState

text \<open>
  \<^verbatim>\<open>typeof text === 'string' || typeof text === 'number'
    ? text.toString() : options.text?.toString() || ''\<close>
\<close>

fun clipboardText :: "WriteArg \<Rightarrow> Text option \<Rightarrow> string" where
  "clipboardText (TextArg t) configured = toString t"
| "clipboardText arg (Some t) = toString t"
| "clipboardText arg None = ''''"

text \<open>
  The \<open>try\<close> block. The host's \<open>navigator.clipboard.writeText\<close> is the parameter
  \<open>clipboard\<close>: \<open>None\<close> when the promise it returns is fulfilled, \<open>Some e\<close> when it is
  rejected with \<open>e\<close>, which the \<open>await\<close> throws. The result is \<open>Inl e\<close> when the block
  throws \<open>e\<close>, with the effects up to there, and \<open>None\<close> when it does not return.
\<close>

definition writeText_try ::
  "Env \<Rightarrow> (string \<Rightarrow> Error option) \<Rightarrow> WriteArg \<Rightarrow> ((Error + unit) \<times> Effect list) option"
where
  "writeText_try env clipboard arg =
     (if transitionStatus (env_state env) \<noteq> Exited then Some (Inr (), [])
      else if clipboardText arg (env_text env) = [] then Some (Inr (), [])
      else
        (case clipboard (clipboardText arg (env_text env)) of
           Some e \<Rightarrow> Some (Inl e, [ClipboardWriteText (clipboardText arg (env_text env))])
         | None \<Rightarrow>
             (case getTransitionStatus (nextStatuses (transitionStatus (env_state env)))
                     (env_nextStatusStates env) (env_durations env) of
                None \<Rightarrow> None
              | Some status \<Rightarrow>
                  if status = Exited
                  then Some (Inr (), [ClipboardWriteText (clipboardText arg (env_text env))])
                  else Some (Inr (),
                         [ClipboardWriteText (clipboardText arg (env_text env)),
                          SafeSetState
                            \<lparr>copyStatus = Resolved, transitionStatus = status, error = None\<rparr>]))))"

text \<open>
  The whole function: the \<open>catch\<close> clause turns a throw into a \<open>safeSetState\<close>. The
  first component is how the promise of the call settles (\<open>Inl\<close>: rejected).
\<close>

definition writeText ::
  "Env \<Rightarrow> (string \<Rightarrow> Error option) \<Rightarrow> WriteArg \<Rightarrow> ((Error + unit) \<times> Effect list) option"
where
  "writeText env clipboard arg =
     (case writeText_try env clipboard arg of
        None \<Rightarrow> None
      | Some (Inl e, effects) \<Rightarrow>
          Some (Inr (),
            effects @
            [SafeSetState \<lparr>copyStatus = Rejected, transitionStatus = Exited, error = Some e\<rparr>])
      | Some (Inr u, effects) \<Rightarrow> Some (Inr u, effects))"

section \<open>The hook as a state machine\<close>

text \<open>
  A pending \<open>setTimeout\<close> of the effect: its delay \<open>durations[transitionStatus]\<close> and
  the state its callback hands to \<open>safeSetState\<close>.
\<close>

record Timer =
  timer_delay :: int
  timer_setState :: UseClipboardState

text \<open>
  What one instance of the hook keeps between renders: the options of the latest render,
  the \<open>useState\<close> cell, the \<open>mounted\<close> ref of \<open>useSafeSetState\<close>, the three
  \<open>useMemo\<close> cells, the closure kept by \<open>useCallback\<close>, and the pending timer. Two
  logs record what the hook shows to the outside: \<open>clipboard_calls\<close>, the arguments of
  its calls of \<open>navigator.clipboard.writeText\<close>, and \<open>rendered\<close>, the state each render
  has returned to the component as \<open>status\<close> and \<open>error\<close>.
\<close>

record Hook =
  options :: UseClipboardOptions
  state :: UseClipboardState
  mounted :: bool
  hasTimeoutChange :: Fingerprint
  durations :: Durations
  nextStatusStates :: NextStatusStates
  writeText_env :: Env
  timer :: "Timer option"
  clipboard_calls :: "string list"
  rendered :: "UseClipboardState list"

text \<open>\<^verbatim>\<open>if (mounted.current) setState(action)\<close>\<close>

definition safeSetState :: "UseClipboardState \<Rightarrow> Hook \<Rightarrow> Hook" where
  "safeSetState action h = (if mounted h then h\<lparr>state := action\<rparr> else h)"

text \<open>
  One run of the effect that processes the transition sequence, after the cleanup of
  its previous run (\<open>clearTimeout\<close>). The flag says whether the run has set the state
  of a mounted hook, which makes React render again.
\<close>

definition useEffect :: "Hook \<Rightarrow> (Hook \<times> bool) option" where
  "useEffect h =
     (case transitionStatus (state h) of
        Exited \<Rightarrow> Some (h\<lparr>timer := None\<rparr>, False)
      | Sequence s \<Rightarrow>
          (case getTransitionStatus (transitionStatus (state h)) (nextStatusStates h) (durations h) of
             None \<Rightarrow> None
           | Some Exited \<Rightarrow> Some (safeSetState defaultState (h\<lparr>timer := None\<rparr>), mounted h)
           | Some (Sequence q) \<Rightarrow>
               Some (h\<lparr>timer := Some
                      \<lparr>timer_delay = index (durations h) q,
                       timer_setState =
                         \<lparr>copyStatus = copyStatus (index (nextStatusStates h) q),
                          transitionStatus = transitionStatus (index (nextStatusStates h) q),
                          error = None\<rparr>\<rparr>\<rparr>,
                     False)))"

text \<open>
  One render with the options \<open>opts\<close>, and its effect. The two tables are computed
  again when the value of \<open>hasTimeoutChange\<close> differs from the memoised one; the
  closure of \<open>writeText\<close> is made again, from the state of this render, when
  \<open>options.text\<close> differs or the tables were computed again; the effect runs when the
  state was set since its last run (\<open>stateSet\<close>) or the tables were computed again.
\<close>

definition render_pass :: "UseClipboardOptions \<Rightarrow> bool \<Rightarrow> Hook \<Rightarrow> (Hook \<times> bool) option" where
  "render_pass opts stateSet h =
     (let fingerprint = hasTimeoutChange_memo (options_timeout opts);
          changed = (fingerprint \<noteq> hasTimeoutChange h);
          ds = (if changed then durations_memo (options_timeout opts) else durations h);
          nss = (if changed then nextStatusStates_memo (options_timeout opts)
                 else nextStatusStates h);
          env = (if changed \<or> options_text opts \<noteq> env_text (writeText_env h)
                 then \<lparr>env_state = state h, env_text = options_text opts,
                       env_nextStatusStates = nss, env_durations = ds\<rparr>
                 else writeText_env h);
          h' = h\<lparr>options := opts, hasTimeoutChange := fingerprint, durations := ds,
                 nextStatusStates := nss, writeText_env := env,
                 rendered := rendered h @ [state h]\<rparr>
      in if stateSet \<or> changed then useEffect h' else Some (h', False))"

text \<open>Renders until no effect sets the state: the second render finds the state at rest.\<close>

definition render :: "UseClipboardOptions \<Rightarrow> bool \<Rightarrow> Hook \<Rightarrow> Hook option" where
  "render opts stateSet h =
     (case render_pass opts stateSet h of
        None \<Rightarrow> None
      | Some (h', again) \<Rightarrow>
          if again then map_option fst (render_pass opts True h') else Some h')"

text \<open>The first render of \<open>useClipboard(opts)\<close>, and the layout effect that mounts it.\<close>

definition mount :: "UseClipboardOptions \<Rightarrow> Hook" where
  "mount opts =
     \<lparr>options = opts,
      state = defaultState,
      mounted = True,
      hasTimeoutChange = hasTimeoutChange_memo (options_timeout opts),
      durations = durations_memo (options_timeout opts),
      nextStatusStates = nextStatusStates_memo (options_timeout opts),
      writeText_env =
        \<lparr>env_state = defaultState, env_text = options_text opts,
         env_nextStatusStates = nextStatusStates_memo (options_timeout opts),
         env_durations = durations_memo (options_timeout opts)\<rparr>,
      timer = None,
      clipboard_calls = [],
      rendered = [defaultState]\<rparr>"

fun perform :: "Effect \<Rightarrow> Hook \<Rightarrow> Hook" where
  "perform (ClipboardWriteText s) h = h\<lparr>clipboard_calls := clipboard_calls h @ [s]\<rparr>"
| "perform (SafeSetState action) h = safeSetState action h"

fun isSafeSetState :: "Effect \<Rightarrow> bool" where
  "isSafeSetState (SafeSetState action) = True"
| "isSafeSetState (ClipboardWriteText s) = False"

text \<open>
  What happens to a hook: its component renders with (possibly new) options; the
  \<open>writeText\<close> it returned at its latest render is called, and the host's clipboard
  write settles as \<open>outcome\<close> before anything else happens; the pending timer fires; the
  component unmounts. A state set on a mounted hook is followed by the render React
  schedules for it.
\<close>

datatype Event =
  Render UseClipboardOptions
| WriteText WriteArg "Error option"
| TimerFired
| Unmount

fun step :: "Event \<Rightarrow> Hook \<Rightarrow> Hook option" where
  "step (Render opts) h = (if mounted h then render opts False h else Some h)"
| "step (WriteText arg outcome) h =
     (case writeText (writeText_env h) (\<lambda>text. outcome) arg of
        None \<Rightarrow> None
      | Some (settled, effects) \<Rightarrow>
          if mounted h \<and> list_ex isSafeSetState effects
          then render (options h) True (fold perform effects h)
          else Some (fold perform effects h))"
| "step TimerFired h =
     (case timer h of
        None \<Rightarrow> Some h
      | Some t \<Rightarrow>
          if mounted h
          then render (options h) True (safeSetState (timer_setState t) (h\<lparr>timer := None\<rparr>))
          else Some (h\<lparr>timer := None\<rparr>))"
| "step Unmount h = Some (h\<lparr>mounted := False, timer := None\<rparr>)"

fun run :: "Event list \<Rightarrow> Hook \<Rightarrow> Hook option" where
  "run [] h = Some h"
| "run (e # es) h = (case step e h of None \<Rightarrow> None | Some h' \<Rightarrow> run es h')"

inductive reachable :: "Hook \<Rightarrow> bool" where
  mounted: "reachable (mount opts)"
| stepped: "reachable h \<Longrightarrow> step e h = Some h' \<Longrightarrow> reachable h'"

section \<open>Invariants of the hook\<close>

text \<open>
  The closure of \<open>writeText\<close> holds the tables and the text of the latest render (its
  state may be older), the memoised fingerprint is that of the latest options, and the
  next-status table is one of the two the hook builds.
\<close>

definition synced :: "Hook \<Rightarrow> bool" where
  "synced h =
     (env_nextStatusStates (writeText_env h) = nextStatusStates h \<and>
      env_durations (writeText_env h) = durations h \<and>
      env_text (writeText_env h) = options_text (options h) \<and>
      hasTimeoutChange h = hasTimeoutChange_memo (options_timeout (options h)) \<and>
      (nextStatusStates h = defaultNextStatusStates \<or>
       nextStatusStates h = nextStatusStates_memo None))"

text \<open>A rejection is at rest, and only a rejection carries an error.\<close>

definition consistent :: "UseClipboardState \<Rightarrow> bool" where
  "consistent s =
     ((copyStatus s = Rejected \<longrightarrow> transitionStatus s = Exited) \<and>
      (error s \<noteq> None \<longrightarrow> copyStatus s = Rejected))"

definition invariant :: "Hook \<Rightarrow> bool" where
  "invariant h =
     (synced h \<and> consistent (state h) \<and> list_all consistent (rendered h) \<and>
      (case timer h of None \<Rightarrow> True | Some t \<Rightarrow> consistent (timer_setState t)))"

section \<open>The loop of \<open>getTransitionStatus\<close>\<close>

lemma loop_Exited: "getTransitionStatus_loop Exited duration m d = Some Exited"
  by (subst getTransitionStatus_loop.simps) simp

lemma loop_positive:
  "0 < duration \<Longrightarrow> getTransitionStatus_loop status duration m d = Some status"
  by (subst getTransitionStatus_loop.simps) (simp split: TransitionStatus.split)

lemma loop_Sequence:
  "duration \<le> 0 \<Longrightarrow>
   getTransitionStatus_loop (Sequence s) duration m d =
     (if index d s \<le> 0
      then getTransitionStatus_loop (transitionStatus (index m s)) (index d s) m d
      else Some (Sequence s))"
  by (subst getTransitionStatus_loop.simps) (simp add: loop_positive)

lemma loop_duration:
  "duration \<le> 0 \<Longrightarrow> getTransitionStatus_loop status duration m d = getTransitionStatus status m d"
  by (cases status) (simp_all add: getTransitionStatus_def loop_Sequence loop_Exited)

lemma getTransitionStatus_unfold:
  "getTransitionStatus status m d =
     (if skip_stops d status then Some status else getTransitionStatus (skip_next m status) m d)"
proof (cases status)
  case (Sequence s)
  have "getTransitionStatus (Sequence s) m d =
          (if index d s \<le> 0
           then getTransitionStatus_loop (transitionStatus (index m s)) (index d s) m d
           else Some (Sequence s))"
    unfolding getTransitionStatus_def by (rule loop_Sequence) simp
  then show ?thesis
    using Sequence by (simp add: loop_duration)
next
  case Exited
  then show ?thesis by (simp add: getTransitionStatus_def loop_Exited)
qed

lemma getTransitionStatus_first:
  "skip_stops d ((skip_next m ^^ n) status) \<Longrightarrow>
   (\<And>k. k < n \<Longrightarrow> \<not> skip_stops d ((skip_next m ^^ k) status)) \<Longrightarrow>
   getTransitionStatus status m d = Some ((skip_next m ^^ n) status)"
proof (induction n arbitrary: status)
  case 0
  then show ?case by (subst getTransitionStatus_unfold) simp
next
  case (Suc n)
  have not_here: "\<not> skip_stops d status"
    using Suc.prems(2) [of 0] by simp
  have later: "\<not> skip_stops d ((skip_next m ^^ k) (skip_next m status))" if "k < n" for k
    using Suc.prems(2) [of "Suc k"] that by (simp add: funpow_swap1)
  have "skip_stops d ((skip_next m ^^ n) (skip_next m status))"
    using Suc.prems(1) by (simp add: funpow_swap1)
  then have "getTransitionStatus (skip_next m status) m d =
               Some ((skip_next m ^^ n) (skip_next m status))"
    using later by (rule Suc.IH)
  then show ?case
    using not_here by (subst getTransitionStatus_unfold) (simp add: funpow_swap1)
qed

lemma skip_next_thrice:
  "(skip_next (nextStatusStates_memo t) ^^ 3) status = Exited"
proof -
  have three: "(f ^^ 3) x = f (f (f x))" for f :: "TransitionStatus \<Rightarrow> TransitionStatus" and x
    by (simp add: numeral_3_eq_3)
  show ?thesis
    unfolding three
    by (cases t rule: nextStatusStates_memo.cases; cases status rule: nextStatuses.cases)
       (simp_all add: defaultNextStatusStates_def)
qed

lemma first_stop_exists:
  "\<exists>n\<le>3. skip_stops d ((skip_next (nextStatusStates_memo t) ^^ n) status) \<and>
          (\<forall>k<n. \<not> skip_stops d ((skip_next (nextStatusStates_memo t) ^^ k) status))"
proof -
  let ?P = "\<lambda>n. skip_stops d ((skip_next (nextStatusStates_memo t) ^^ n) status)"
  have "?P 3" by (simp only: skip_next_thrice skip_stops.simps)
  then have "?P (LEAST n. ?P n)" and "(LEAST n. ?P n) \<le> 3"
    by (rule LeastI, rule Least_le)
  moreover have "\<forall>k<(LEAST n. ?P n). \<not> ?P k"
    using not_less_Least by blast
  ultimately show ?thesis by blast
qed

lemma getTransitionStatus_returns:
  "\<exists>r. getTransitionStatus status (nextStatusStates_memo t) d = Some r \<and> skip_stops d r"
proof -
  obtain n where "skip_stops d ((skip_next (nextStatusStates_memo t) ^^ n) status)"
      "\<forall>k<n. \<not> skip_stops d ((skip_next (nextStatusStates_memo t) ^^ k) status)"
    using first_stop_exists by blast
  then show ?thesis
    using getTransitionStatus_first [where n = n and status = status and d = d] by blast
qed

text \<open>
  Claim C4. For every start phase, either next-phase map the hook builds (the table
  of \<open>nextStatusStates_memo\<close> for any timeout) and every duration table,
  \<open>getTransitionStatus\<close> returns, and returns the first phase, among the start phase
  and the phases reached from it by following the map's phase component, that is
  \<open>exited\<close> or has a strictly positive duration; at most three steps are followed. A
  start phase that is itself \<open>exited\<close> or of positive duration is returned unchanged.
\<close>

theorem getTransitionStatus_first_stop:
  "(\<exists>n\<le>3.
      getTransitionStatus status (nextStatusStates_memo t) d =
        Some ((skip_next (nextStatusStates_memo t) ^^ n) status) \<and>
      skip_stops d ((skip_next (nextStatusStates_memo t) ^^ n) status) \<and>
      (\<forall>k<n. \<not> skip_stops d ((skip_next (nextStatusStates_memo t) ^^ k) status))) \<and>
   (skip_stops d status \<longrightarrow> getTransitionStatus status (nextStatusStates_memo t) d = Some status)"
proof
  obtain n where n: "n \<le> 3" "skip_stops d ((skip_next (nextStatusStates_memo t) ^^ n) status)"
      "\<forall>k<n. \<not> skip_stops d ((skip_next (nextStatusStates_memo t) ^^ k) status)"
    using first_stop_exists by blast
  then have "getTransitionStatus status (nextStatusStates_memo t) d =
               Some ((skip_next (nextStatusStates_memo t) ^^ n) status)"
    by (intro getTransitionStatus_first) auto
  with n show "\<exists>n\<le>3.
      getTransitionStatus status (nextStatusStates_memo t) d =
        Some ((skip_next (nextStatusStates_memo t) ^^ n) status) \<and>
      skip_stops d ((skip_next (nextStatusStates_memo t) ^^ n) status) \<and>
      (\<forall>k<n. \<not> skip_stops d ((skip_next (nextStatusStates_memo t) ^^ k) status))"
    by blast
next
  show "skip_stops d status \<longrightarrow>
        getTransitionStatus status (nextStatusStates_memo t) d = Some status"
    by (subst getTransitionStatus_unfold) simp
qed

theorem getTransitionStatus_first_stop_witness:
  "(\<exists>n\<le>3.
      getTransitionStatus (Sequence Entering) (nextStatusStates_memo (Some (Number 2000)))
          (durations_memo (Some (Number 2000))) =
        Some ((skip_next (nextStatusStates_memo (Some (Number 2000))) ^^ n) (Sequence Entering)) \<and>
      skip_stops (durations_memo (Some (Number 2000)))
        ((skip_next (nextStatusStates_memo (Some (Number 2000))) ^^ n) (Sequence Entering)) \<and>
      (\<forall>k<n. \<not> skip_stops (durations_memo (Some (Number 2000)))
                ((skip_next (nextStatusStates_memo (Some (Number 2000))) ^^ k) (Sequence Entering)))) \<and>
   skip_stops (durations_memo (Some (Number 2000))) (Sequence Entered) \<and>
   getTransitionStatus (Sequence Entered) (nextStatusStates_memo (Some (Number 2000)))
       (durations_memo (Some (Number 2000))) = Some (Sequence Entered)"
  using getTransitionStatus_first_stop
          [of "Sequence Entering" "Some (Number 2000)" "durations_memo (Some (Number 2000))"]
        getTransitionStatus_first_stop
          [of "Sequence Entered" "Some (Number 2000)" "durations_memo (Some (Number 2000))"]
  by (simp add: defaultDurations_def)

text \<open>
  Claim C10. \<open>getTransitionStatus\<close> is idempotent on either next-phase map the hook
  builds: for every phase and duration table it returns a phase, and applied to that
  phase it returns it again.
\<close>

theorem getTransitionStatus_idempotent:
  "\<exists>r. getTransitionStatus status (nextStatusStates_memo t) d = Some r \<and>
       getTransitionStatus r (nextStatusStates_memo t) d = Some r"
proof -
  obtain r where r: "getTransitionStatus status (nextStatusStates_memo t) d = Some r"
      "skip_stops d r"
    using getTransitionStatus_returns by blast
  from r(2) have "getTransitionStatus r (nextStatusStates_memo t) d = Some r"
    by (subst getTransitionStatus_unfold) simp
  with r(1) show ?thesis by blast
qed

theorem getTransitionStatus_idempotent_witness:
  "\<exists>r. getTransitionStatus (Sequence Entering) (nextStatusStates_memo None)
           \<lparr>entering = 0, entered = 0, exiting = 250\<rparr> = Some r \<and>
       getTransitionStatus r (nextStatusStates_memo None)
           \<lparr>entering = 0, entered = 0, exiting = 250\<rparr> = Some r"
  by (rule getTransitionStatus_idempotent)

section \<open>The hook keeps its invariants\<close>

lemma variant_returns:
  "m = defaultNextStatusStates \<or> m = nextStatusStates_memo None \<Longrightarrow>
   \<exists>r. getTransitionStatus status m d = Some r \<and> skip_stops d r"
  using getTransitionStatus_returns [of status "Some (Object \<lparr>entering = None, entered = None, exiting = None\<rparr>)" d]
        getTransitionStatus_returns [of status None d]
  by auto

lemma variant_not_rejected:
  "m = defaultNextStatusStates \<or> m = nextStatusStates_memo None \<Longrightarrow>
   copyStatus (index m q) \<noteq> Rejected"
  by (cases q) (auto simp: defaultNextStatusStates_def)

lemma nextStatusStates_memo_variant:
  "nextStatusStates_memo t = defaultNextStatusStates \<or>
   nextStatusStates_memo t = nextStatusStates_memo None"
  by (cases t rule: nextStatusStates_memo.cases) simp_all

subsection \<open>\<open>writeText\<close>, case by case\<close>

lemma writeText_blocked:
  "transitionStatus (env_state env) \<noteq> Exited \<Longrightarrow> writeText env clipboard arg = Some (Inr (), [])"
  by (simp add: writeText_def writeText_try_def)

lemma writeText_empty:
  "clipboardText arg (env_text env) = [] \<Longrightarrow> writeText env clipboard arg = Some (Inr (), [])"
  by (simp add: writeText_def writeText_try_def)

lemma writeText_rejected:
  "transitionStatus (env_state env) = Exited \<Longrightarrow> clipboardText arg (env_text env) \<noteq> [] \<Longrightarrow>
   clipboard (clipboardText arg (env_text env)) = Some e \<Longrightarrow>
   writeText env clipboard arg =
     Some (Inr (),
       [ClipboardWriteText (clipboardText arg (env_text env)),
        SafeSetState \<lparr>copyStatus = Rejected, transitionStatus = Exited, error = Some e\<rparr>])"
  by (simp add: writeText_def writeText_try_def)

lemma writeText_fulfilled:
  "transitionStatus (env_state env) = Exited \<Longrightarrow> clipboardText arg (env_text env) \<noteq> [] \<Longrightarrow>
   clipboard (clipboardText arg (env_text env)) = None \<Longrightarrow>
   getTransitionStatus (Sequence Entering) (env_nextStatusStates env) (env_durations env) = Some r \<Longrightarrow>
   writeText env clipboard arg =
     Some (Inr (),
       if r = Exited then [ClipboardWriteText (clipboardText arg (env_text env))]
       else [ClipboardWriteText (clipboardText arg (env_text env)),
             SafeSetState \<lparr>copyStatus = Resolved, transitionStatus = r, error = None\<rparr>])"
  by (simp add: writeText_def writeText_try_def)

lemma writeText_cases:
  assumes "getTransitionStatus (Sequence Entering) (env_nextStatusStates env) (env_durations env) = Some r"
  shows "writeText env clipboard arg = Some (Inr (), []) \<or>
         writeText env clipboard arg =
           Some (Inr (), [ClipboardWriteText (clipboardText arg (env_text env))]) \<or>
         (\<exists>e. writeText env clipboard arg =
           Some (Inr (),
             [ClipboardWriteText (clipboardText arg (env_text env)),
              SafeSetState \<lparr>copyStatus = Rejected, transitionStatus = Exited, error = Some e\<rparr>])) \<or>
         (r \<noteq> Exited \<and> writeText env clipboard arg =
           Some (Inr (),
             [ClipboardWriteText (clipboardText arg (env_text env)),
              SafeSetState \<lparr>copyStatus = Resolved, transitionStatus = r, error = None\<rparr>]))"
proof (cases "transitionStatus (env_state env) = Exited \<and> clipboardText arg (env_text env) \<noteq> []")
  case False
  then show ?thesis
    using writeText_blocked [of env clipboard arg] writeText_empty [of arg env clipboard] by blast
next
  case True
  show ?thesis
  proof (cases "clipboard (clipboardText arg (env_text env))")
    case None
    with True assms show ?thesis
      by (simp add: writeText_fulfilled)
  next
    case (Some e)
    with True show ?thesis
      by (simp add: writeText_rejected)
  qed
qed

subsection \<open>The effect and the render\<close>

lemma consistent_simps:
  "consistent defaultState"
  "consistent \<lparr>copyStatus = Rejected, transitionStatus = Exited, error = Some e\<rparr>"
  "consistent \<lparr>copyStatus = Resolved, transitionStatus = r, error = None\<rparr>"
  "c \<noteq> Rejected \<Longrightarrow> consistent \<lparr>copyStatus = c, transitionStatus = r, error = None\<rparr>"
  by (simp_all add: consistent_def defaultState_def)

lemma useEffect_total:
  assumes "nextStatusStates h = defaultNextStatusStates \<or> nextStatusStates h = nextStatusStates_memo None"
  shows "\<exists>h' again. useEffect h = Some (h', again)"
proof -
  obtain r where "getTransitionStatus (transitionStatus (state h)) (nextStatusStates h) (durations h) = Some r"
    using variant_returns [OF assms] by blast
  then show ?thesis
    by (cases r; cases "transitionStatus (state h)") (auto simp: useEffect_def)
qed

lemma useEffect_invariant:
  assumes "invariant h" and "useEffect h = Some (h', again)"
  shows "invariant h'"
proof -
  have variant: "nextStatusStates h = defaultNextStatusStates \<or> nextStatusStates h = nextStatusStates_memo None"
    using assms(1) by (simp add: invariant_def synced_def)
  have timer: "consistent
      \<lparr>copyStatus = copyStatus (index (nextStatusStates h) q),
       transitionStatus = transitionStatus (index (nextStatusStates h) q), error = None\<rparr>" for q
    using variant_not_rejected [OF variant] by (simp add: consistent_simps)
  show ?thesis
    using assms timer
    by (auto simp: useEffect_def invariant_def synced_def safeSetState_def consistent_simps
             split: TransitionStatus.splits option.splits if_splits)
qed

lemma useEffect_again:
  assumes "useEffect h = Some (h', True)"
  shows "h' = h\<lparr>timer := None, state := defaultState\<rparr>"
  using assms
  by (auto simp: useEffect_def safeSetState_def split: TransitionStatus.splits option.splits if_splits)

lemma useEffect_at_rest:
  "transitionStatus (state h) = Exited \<Longrightarrow> useEffect h = Some (h\<lparr>timer := None\<rparr>, False)"
  by (simp add: useEffect_def)

lemma render_pass_total:
  assumes "nextStatusStates h = defaultNextStatusStates \<or> nextStatusStates h = nextStatusStates_memo None"
  shows "\<exists>h' again. render_pass opts stateSet h = Some (h', again)"
  using assms nextStatusStates_memo_variant [of "options_timeout opts"]
  by (auto simp: render_pass_def Let_def intro!: useEffect_total)

lemma render_pass_invariant:
  assumes "invariant h" and "render_pass opts stateSet h = Some (h', again)"
  shows "invariant h'"
proof -
  define fingerprint where "fingerprint = hasTimeoutChange_memo (options_timeout opts)"
  define changed where "changed = (fingerprint \<noteq> hasTimeoutChange h)"
  define ds where "ds = (if changed then durations_memo (options_timeout opts) else durations h)"
  define nss where "nss = (if changed then nextStatusStates_memo (options_timeout opts)
                 else nextStatusStates h)"
  define env where "env = (if changed \<or> options_text opts \<noteq> env_text (writeText_env h)
                 then \<lparr>env_state = state h, env_text = options_text opts,
                       env_nextStatusStates = nss, env_durations = ds\<rparr>
                 else writeText_env h)"
  define g where "g = h\<lparr>options := opts, hasTimeoutChange := fingerprint, durations := ds,
                 nextStatusStates := nss, writeText_env := env,
                 rendered := rendered h @ [state h]\<rparr>"
  have pass: "render_pass opts stateSet h = (if stateSet \<or> changed then useEffect g else Some (g, False))"
    by (simp add: render_pass_def Let_def g_def env_def nss_def ds_def changed_def fingerprint_def)
  have "nss = defaultNextStatusStates \<or> nss = nextStatusStates_memo None"
    using assms(1) nextStatusStates_memo_variant [of "options_timeout opts"]
    by (auto simp: nss_def invariant_def synced_def)
  moreover have "env_nextStatusStates env = nss" "env_durations env = ds" "env_text env = options_text opts"
    using assms(1) by (auto simp: env_def nss_def ds_def invariant_def synced_def)
  ultimately have "invariant g"
    using assms(1) by (simp add: g_def invariant_def synced_def fingerprint_def)
  then show ?thesis
    using assms(2) useEffect_invariant [of g h' again]
    by (auto simp: pass split: if_splits)
qed

lemma render_total:
  assumes "invariant h"
  shows "\<exists>h'. render opts stateSet h = Some h'"
proof -
  obtain g again where g: "render_pass opts stateSet h = Some (g, again)"
    using assms render_pass_total [of h opts stateSet] by (auto simp: invariant_def synced_def)
  then have "invariant g"
    using assms render_pass_invariant by blast
  then obtain g' again' where "render_pass opts True g = Some (g', again')"
    using render_pass_total [of g opts True] by (auto simp: invariant_def synced_def)
  with g show ?thesis
    by (simp add: render_def)
qed

lemma render_invariant:
  assumes "invariant h" and "render opts stateSet h = Some h'"
  shows "invariant h'"
proof -
  obtain g again where g: "render_pass opts stateSet h = Some (g, again)"
    using assms(2) by (auto simp: render_def split: option.splits)
  then have inv: "invariant g"
    using assms(1) render_pass_invariant by blast
  show ?thesis
  proof (cases again)
    case False
    with g assms(2) inv show ?thesis by (simp add: render_def)
  next
    case True
    with g assms(2) obtain again' where "render_pass opts True g = Some (h', again')"
      by (auto simp: render_def)
    with inv show ?thesis
      using render_pass_invariant by blast
  qed
qed

subsection \<open>Steps\<close>

lemma fold_perform_invariant:
  "invariant h \<Longrightarrow> (\<And>a. SafeSetState a \<in> set effects \<Longrightarrow> consistent a) \<Longrightarrow>
   invariant (fold perform effects h)"
proof (induction effects arbitrary: h)
  case Nil
  then show ?case by simp
next
  case (Cons x effects)
  have "invariant (perform x h)"
    using Cons.prems
    by (cases x) (auto simp: invariant_def synced_def safeSetState_def)
  then show ?case
    using Cons by simp
qed

lemma writeText_effects:
  assumes "invariant h" and "writeText (writeText_env h) clipboard arg = Some (settled, effects)"
  shows "settled = Inr ()" and "SafeSetState a \<in> set effects \<Longrightarrow> consistent a"
proof -
  obtain r where "getTransitionStatus (Sequence Entering) (env_nextStatusStates (writeText_env h))
      (env_durations (writeText_env h)) = Some r"
    using assms(1) variant_returns [of "nextStatusStates h" "Sequence Entering" "durations h"]
    by (auto simp: invariant_def synced_def)
  from writeText_cases [OF this, of clipboard arg] assms(2)
  show "settled = Inr ()" and "SafeSetState a \<in> set effects \<Longrightarrow> consistent a"
    by (auto simp: consistent_simps)
qed

lemma writeText_total:
  assumes "invariant h"
  shows "\<exists>effects. writeText (writeText_env h) clipboard arg = Some (Inr (), effects)"
proof -
  obtain r where "getTransitionStatus (Sequence Entering) (env_nextStatusStates (writeText_env h))
      (env_durations (writeText_env h)) = Some r"
    using assms(1) variant_returns [of "nextStatusStates h" "Sequence Entering" "durations h"]
    by (auto simp: invariant_def synced_def)
  from writeText_cases [OF this, of clipboard arg]
  show ?thesis by auto
qed

lemma mount_invariant: "invariant (mount opts)"
  using nextStatusStates_memo_variant [of "options_timeout opts"]
  by (simp add: invariant_def synced_def mount_def consistent_simps)

lemma step_total:
  assumes "invariant h"
  shows "\<exists>h'. step e h = Some h'"
proof (cases e)
  case (Render opts)
  then show ?thesis using assms render_total by simp
next
  case (WriteText arg outcome)
  obtain effects where w: "writeText (writeText_env h) (\<lambda>text. outcome) arg = Some (Inr (), effects)"
    using writeText_total [OF assms] by blast
  then have "invariant (fold perform effects h)"
    using assms writeText_effects(2) fold_perform_invariant by blast
  then show ?thesis
    using WriteText w render_total by simp
next
  case TimerFired
  show ?thesis
  proof (cases "timer h")
    case None
    with TimerFired show ?thesis by simp
  next
    case (Some t)
    then have "invariant (safeSetState (timer_setState t) (h\<lparr>timer := None\<rparr>))"
      using assms by (simp add: invariant_def synced_def safeSetState_def)
    then show ?thesis
      using TimerFired Some render_total by simp
  qed
next
  case Unmount
  then show ?thesis by simp
qed

lemma step_invariant:
  assumes "invariant h" and "step e h = Some h'"
  shows "invariant h'"
proof (cases e)
  case (Render opts)
  then show ?thesis
    using assms render_invariant by (auto split: if_splits)
next
  case (WriteText arg outcome)
  obtain effects where w: "writeText (writeText_env h) (\<lambda>text. outcome) arg = Some (Inr (), effects)"
    using writeText_total [OF assms(1)] by blast
  then have "invariant (fold perform effects h)"
    using assms(1) writeText_effects(2) fold_perform_invariant by blast
  then show ?thesis
    using WriteText w assms(2) render_invariant by (auto split: if_splits)
next
  case TimerFired
  show ?thesis
  proof (cases "timer h")
    case None
    with TimerFired assms show ?thesis by simp
  next
    case (Some t)
    then have "invariant (safeSetState (timer_setState t) (h\<lparr>timer := None\<rparr>))"
        and "invariant (h\<lparr>timer := None\<rparr>)"
      using assms(1) by (simp_all add: invariant_def synced_def safeSetState_def)
    then show ?thesis
      using TimerFired Some assms(2) render_invariant by (auto split: if_splits)
  qed
next
  case Unmount
  then show ?thesis
    using assms by (auto simp: invariant_def synced_def)
qed

lemma reachable_invariant: "reachable h \<Longrightarrow> invariant h"
  by (induction rule: reachable.induct) (auto intro: mount_invariant step_invariant)

text \<open>
  Claim C9. In every state a hook reaches, and in every state a render has shown,
  \<open>copyStatus = rejected\<close> implies \<open>transitionStatus = exited\<close>, and a non-null
  \<open>error\<close> implies \<open>copyStatus = rejected\<close>: only the \<open>catch\<close> clause of \<open>writeText\<close>
  sets an error, and it sets \<open>rejected\<close> and \<open>exited\<close> with it.
\<close>

theorem rejected_is_exited:
  assumes "reachable h"
  shows "(copyStatus (state h) = Rejected \<longrightarrow> transitionStatus (state h) = Exited) \<and>
         (error (state h) \<noteq> None \<longrightarrow> copyStatus (state h) = Rejected) \<and>
         (\<forall>s \<in> set (rendered h).
            (copyStatus s = Rejected \<longrightarrow> transitionStatus s = Exited) \<and>
            (error s \<noteq> None \<longrightarrow> copyStatus s = Rejected))"
proof -
  have "invariant h"
    using assms by (rule reachable_invariant)
  then have "consistent (state h)" and "\<forall>s \<in> set (rendered h). consistent s"
    by (simp_all add: invariant_def list_all_iff)
  then show ?thesis
    unfolding consistent_def by blast
qed

theorem rejected_is_exited_witness:
  "\<exists>h. step (WriteText NoArg (Some ''NotAllowedError''))
          (mount \<lparr>options_text = Some (Str ''hi''), options_timeout = Some (Number 2000)\<rparr>) = Some h \<and>
       reachable h \<and> error (state h) = Some ''NotAllowedError'' \<and>
       copyStatus (state h) = Rejected \<and> transitionStatus (state h) = Exited"
proof -
  let ?m = "mount \<lparr>options_text = Some (Str ''hi''), options_timeout = Some (Number 2000)\<rparr>"
  obtain h where h: "step (WriteText NoArg (Some ''NotAllowedError'')) ?m = Some h"
    using step_total [OF mount_invariant] by blast
  then have r: "reachable h"
    using reachable.mounted reachable.stepped by blast
  have e: "error (state h) = Some ''NotAllowedError''"
    using h
    by (auto simp: mount_def writeText_def writeText_try_def defaultState_def render_def
          render_pass_def Let_def useEffect_def safeSetState_def)
  with rejected_is_exited [OF r] have "copyStatus (state h) = Rejected \<and> transitionStatus (state h) = Exited"
    by simp
  with h r e show ?thesis by blast
qed

section \<open>The timeout option\<close>

text \<open>
  Claim C7. A single number \<open>n\<close> resolves to the durations
  \<open>{entering: 0, entered: n, exiting: 0}\<close> and to the next-status table that equals the
  default one except that \<open>entered\<close> leads to \<open>(idle, exited)\<close>. An object resolves each
  phase to its value, or to 0 where the key is absent, and to the default table:
  \<open>entering \<rightarrow> (resolved, entered)\<close>, \<open>entered \<rightarrow> (resolved, exiting)\<close>,
  \<open>exiting \<rightarrow> (idle, exited)\<close>.
\<close>

theorem resolve_timeout:
  "durations_memo (Some (Number n)) = \<lparr>entering = 0, entered = n, exiting = 0\<rparr> \<and>
   nextStatusStates_memo (Some (Number n)) =
     \<lparr>entering = \<lparr>copyStatus = Resolved, transitionStatus = Sequence Entered\<rparr>,
      entered = \<lparr>copyStatus = Idle, transitionStatus = Exited\<rparr>,
      exiting = \<lparr>copyStatus = Idle, transitionStatus = Exited\<rparr>\<rparr> \<and>
   nextStatusStates_memo (Some (Number n)) =
     (nextStatusStates_memo (Some (Object timeout)))
       \<lparr>entered := \<lparr>copyStatus = Idle, transitionStatus = Exited\<rparr>\<rparr> \<and>
   durations_memo (Some (Object timeout)) =
     \<lparr>entering = (case entering timeout of None \<Rightarrow> 0 | Some ms \<Rightarrow> ms),
      entered = (case entered timeout of None \<Rightarrow> 0 | Some ms \<Rightarrow> ms),
      exiting = (case exiting timeout of None \<Rightarrow> 0 | Some ms \<Rightarrow> ms)\<rparr> \<and>
   nextStatusStates_memo (Some (Object timeout)) =
     \<lparr>entering = \<lparr>copyStatus = Resolved, transitionStatus = Sequence Entered\<rparr>,
      entered = \<lparr>copyStatus = Resolved, transitionStatus = Sequence Exiting\<rparr>,
      exiting = \<lparr>copyStatus = Idle, transitionStatus = Exited\<rparr>\<rparr>"
proof -
  have "nullish v 0 = (case v of None \<Rightarrow> 0 | Some ms \<Rightarrow> ms)" for v
    by (cases v) simp_all
  then show ?thesis
    by (simp add: defaultDurations_def defaultNextStatusStates_def)
qed

theorem resolve_timeout_witness:
  "durations_memo (Some (Number 2000)) = \<lparr>entering = 0, entered = 2000, exiting = 0\<rparr> \<and>
   durations_memo (Some (Object \<lparr>entering = None, entered = Some 2000, exiting = Some 250\<rparr>)) =
     \<lparr>entering = 0, entered = 2000, exiting = 250\<rparr>"
  using resolve_timeout [of 2000 "\<lparr>entering = None, entered = Some 2000, exiting = Some 250\<rparr>"]
  by simp

text \<open>
  The fingerprint of an object timeout concatenates the three numbers with nothing
  between them, so two objects with different durations can have the same one; a render
  with the second then keeps the tables of the first.
\<close>

lemma hasTimeoutChange_collision:
  "hasTimeoutChange_memo (Some (Object \<lparr>entering = Some 1, entered = Some 23, exiting = Some 4\<rparr>)) =
   hasTimeoutChange_memo (Some (Object \<lparr>entering = Some 12, entered = Some 3, exiting = Some 4\<rparr>)) \<and>
   durations_memo (Some (Object \<lparr>entering = Some 1, entered = Some 23, exiting = Some 4\<rparr>)) \<noteq>
   durations_memo (Some (Object \<lparr>entering = Some 12, entered = Some 3, exiting = Some 4\<rparr>))"
  by (simp add: number_toString_def digit_def)

lemma render_keeps_durations_on_collision:
  "map_option durations
     (step (Render \<lparr>options_text = None,
                    options_timeout = Some (Object \<lparr>entering = Some 12, entered = Some 3, exiting = Some 4\<rparr>)\<rparr>)
        (mount \<lparr>options_text = None,
                options_timeout = Some (Object \<lparr>entering = Some 1, entered = Some 23, exiting = Some 4\<rparr>)\<rparr>)) =
   Some \<lparr>entering = 1, entered = 23, exiting = 4\<rparr>"
  by (simp add: mount_def render_def render_pass_def Let_def number_toString_def digit_def)






section \<open>Calls of \<open>writeText\<close>\<close>



lemma all_zero_exited:
  assumes "m = defaultNextStatusStates \<or> m = nextStatusStates_memo None"
      and "entering d \<le> 0" and "entered d \<le> 0" and "exiting d \<le> 0"
  shows "getTransitionStatus status m d = Some Exited"
proof -
  obtain r where r: "getTransitionStatus status m d = Some r" "skip_stops d r"
    using variant_returns [OF assms(1)] by blast
  have "r = Exited"
  proof (cases r)
    case (Sequence q)
    with r(2) assms(2-4) show ?thesis by (cases q) simp_all
  qed simp
  with r(1) show ?thesis by simp
qed

text \<open>
  Claim C6. On a hook whose three durations are all \<open>\<le> 0\<close>, the first status with a
  positive duration after \<open>exited\<close> is \<open>exited\<close> itself, and a call of \<open>writeText\<close> whose
  clipboard write succeeds changes nothing but the log of clipboard writes: the state,
  the pending timer and the rendered states stay as they were.
\<close>

theorem writeText_zero_durations:
  assumes "reachable h"
      and "entering (durations h) \<le> 0" and "entered (durations h) \<le> 0"
      and "exiting (durations h) \<le> 0"
  shows "getTransitionStatus (Sequence Entering) (nextStatusStates h) (durations h) = Some Exited \<and>
         step (WriteText arg None) h =
           Some (if transitionStatus (env_state (writeText_env h)) = Exited \<and>
                    clipboardText arg (options_text (options h)) \<noteq> []
                 then h\<lparr>clipboard_calls :=
                          clipboard_calls h @ [clipboardText arg (options_text (options h))]\<rparr>
                 else h) \<and>
         (\<exists>h'. step (WriteText arg None) h = Some h' \<and> state h' = state h \<and>
               timer h' = timer h \<and> rendered h' = rendered h)"
proof -
  have sync: "synced h"
    using assms(1) reachable_invariant by (simp add: invariant_def)
  then have exited: "getTransitionStatus (Sequence Entering) (nextStatusStates h) (durations h) = Some Exited"
    using assms(2-4) by (intro all_zero_exited) (simp_all add: synced_def)
  have env: "env_text (writeText_env h) = options_text (options h)"
      "env_nextStatusStates (writeText_env h) = nextStatusStates h"
      "env_durations (writeText_env h) = durations h"
    using sync by (simp_all add: synced_def)
  have s: "step (WriteText arg None) h =
           Some (if transitionStatus (env_state (writeText_env h)) = Exited \<and>
                    clipboardText arg (options_text (options h)) \<noteq> []
                 then h\<lparr>clipboard_calls :=
                          clipboard_calls h @ [clipboardText arg (options_text (options h))]\<rparr>
                 else h)"
  proof (cases "transitionStatus (env_state (writeText_env h)) = Exited \<and>
                    clipboardText arg (options_text (options h)) \<noteq> []")
    case True
    then have "writeText (writeText_env h) (\<lambda>text. None) arg =
        Some (Inr (), [ClipboardWriteText (clipboardText arg (options_text (options h)))])"
      using writeText_fulfilled [of "writeText_env h" arg "\<lambda>text. None" Exited] exited env
      by simp
    with True show ?thesis by simp
  next
    case False
    then have "writeText (writeText_env h) (\<lambda>text. None) arg = Some (Inr (), [])"
      using writeText_blocked [of "writeText_env h"] writeText_empty [of arg "writeText_env h"] env
      by auto
    with False show ?thesis by simp
  qed
  show ?thesis
    using exited s by simp
qed

theorem writeText_zero_durations_witness:
  "reachable (mount \<lparr>options_text = Some (Str ''hi''), options_timeout = Some (Number 0)\<rparr>) \<and>
   durations (mount \<lparr>options_text = Some (Str ''hi''), options_timeout = Some (Number 0)\<rparr>) =
     \<lparr>entering = 0, entered = 0, exiting = 0\<rparr> \<and>
   (\<exists>h'. step (WriteText NoArg None)
           (mount \<lparr>options_text = Some (Str ''hi''), options_timeout = Some (Number 0)\<rparr>) = Some h' \<and>
         state h' = defaultState \<and> timer h' = None \<and> rendered h' = [defaultState])"
proof -
  let ?m = "mount \<lparr>options_text = Some (Str ''hi''), options_timeout = Some (Number 0)\<rparr>"
  have r: "reachable ?m" by (rule reachable.mounted)
  have d: "durations ?m = \<lparr>entering = 0, entered = 0, exiting = 0\<rparr>"
    and m: "state ?m = defaultState" "timer ?m = None" "rendered ?m = [defaultState]"
    by (simp_all add: mount_def defaultDurations_def)
  have "\<exists>h'. step (WriteText NoArg None) ?m = Some h' \<and> state h' = state ?m \<and>
               timer h' = timer ?m \<and> rendered h' = rendered ?m"
    using writeText_zero_durations [OF r, of NoArg] by (simp add: d)
  with r d show ?thesis
    by (simp only: m)
qed

text \<open>
  Claim C8. The text \<open>writeText\<close> writes is the argument, converted to a string, when
  the argument is a string or a number, and the configured \<open>options.text\<close> (or the empty
  string, when there is none) when the argument is absent or an event. A call that
  passes the guard with a non-empty text calls the host's clipboard write with that
  text first; a call whose text is empty has no effect at all and leaves the hook as it
  was.
\<close>

theorem writeText_text:
  assumes "reachable h"
  shows "clipboardText (TextArg (Str s)) (options_text (options h)) = s \<and>
         clipboardText (TextArg (Num n)) (options_text (options h)) = number_toString n \<and>
         clipboardText NoArg (options_text (options h)) =
           (case options_text (options h) of None \<Rightarrow> [] | Some t \<Rightarrow> toString t) \<and>
         clipboardText EventArg (options_text (options h)) =
           (case options_text (options h) of None \<Rightarrow> [] | Some t \<Rightarrow> toString t) \<and>
         (transitionStatus (env_state (writeText_env h)) = Exited \<longrightarrow>
          clipboardText arg (options_text (options h)) \<noteq> [] \<longrightarrow>
            (\<exists>rest. writeText (writeText_env h) clipboard arg =
               Some (Inr (), ClipboardWriteText (clipboardText arg (options_text (options h))) # rest))) \<and>
         (clipboardText arg (options_text (options h)) = [] \<longrightarrow>
            writeText (writeText_env h) clipboard arg = Some (Inr (), []) \<and>
            step (WriteText arg outcome) h = Some h)"
proof -
  have inv: "invariant h"
    using assms by (rule reachable_invariant)
  then have env: "env_text (writeText_env h) = options_text (options h)"
    by (simp add: invariant_def synced_def)
  obtain r where r: "getTransitionStatus (Sequence Entering) (env_nextStatusStates (writeText_env h))
      (env_durations (writeText_env h)) = Some r"
    using inv variant_returns [of "nextStatusStates h" "Sequence Entering" "durations h"]
    by (auto simp: invariant_def synced_def)
  have written: "\<exists>rest. writeText (writeText_env h) clipboard arg =
               Some (Inr (), ClipboardWriteText (clipboardText arg (options_text (options h))) # rest)"
    if "transitionStatus (env_state (writeText_env h)) = Exited"
      and "clipboardText arg (options_text (options h)) \<noteq> []"
  proof (cases "clipboard (clipboardText arg (options_text (options h)))")
    case None
    with that r env show ?thesis
      using writeText_fulfilled [of "writeText_env h" arg clipboard r] by simp
  next
    case (Some e)
    with that env show ?thesis
      using writeText_rejected [of "writeText_env h" arg clipboard e] by simp
  qed
  have empty: "writeText (writeText_env h) clipboard' arg = Some (Inr (), [])"
    if "clipboardText arg (options_text (options h)) = []" for clipboard'
    using that env by (simp add: writeText_empty)
  have texts: "clipboardText NoArg c = (case c of None \<Rightarrow> [] | Some t \<Rightarrow> toString t)"
      "clipboardText EventArg c = (case c of None \<Rightarrow> [] | Some t \<Rightarrow> toString t)" for c
    by (cases c; simp)+
  show ?thesis
    using written empty by (simp add: texts)
qed

theorem writeText_text_witness:
  "reachable (mount \<lparr>options_text = Some (Str []), options_timeout = Some (Number 2000)\<rparr>) \<and>
   clipboardText NoArg (Some (Str [])) = [] \<and>
   step (WriteText NoArg None)
     (mount \<lparr>options_text = Some (Str []), options_timeout = Some (Number 2000)\<rparr>) =
     Some (mount \<lparr>options_text = Some (Str []), options_timeout = Some (Number 2000)\<rparr>) \<and>
   clipboardText (TextArg (Num 42)) (Some (Str [])) = ''42'' \<and>
   (\<exists>rest. writeText
       (writeText_env (mount \<lparr>options_text = Some (Str []), options_timeout = Some (Number 2000)\<rparr>))
       (\<lambda>text. None) (TextArg (Num 42)) = Some (Inr (), ClipboardWriteText ''42'' # rest))"
proof -
  let ?m = "mount \<lparr>options_text = Some (Str []), options_timeout = Some (Number 2000)\<rparr>"
  have r: "reachable ?m" by (rule reachable.mounted)
  have t: "options_text (options ?m) = Some (Str [])"
    and g: "transitionStatus (env_state (writeText_env ?m)) = Exited"
    by (simp_all add: mount_def defaultState_def)
  have n: "number_toString 42 = ''42''"
    by (simp add: number_toString_def digit_def)
  have e: "clipboardText NoArg (Some (Str [])) = []"
    and c: "clipboardText (TextArg (Num 42)) (Some (Str [])) = ''42''"
    by (simp_all add: n)
  have "step (WriteText NoArg None) ?m = Some ?m"
    using writeText_text [OF r, of "[]" 42 NoArg "\<lambda>text. None" None] e
    by (simp only: t)
  moreover have "\<exists>rest. writeText (writeText_env ?m) (\<lambda>text. None) (TextArg (Num 42)) =
      Some (Inr (), ClipboardWriteText ''42'' # rest)"
    using writeText_text [OF r, of "[]" 42 "TextArg (Num 42)" "\<lambda>text. None" None] g
    by (simp add: t n)
  ultimately show ?thesis
    using r e c by blast
qed

subsection \<open>The guard reads the state of an older render\<close>

text \<open>
  \<open>state\<close> is not among the dependencies of the \<open>useCallback\<close> that holds \<open>writeText\<close>.
  While the text and the timeout stay the same, a render after a state change keeps the
  closure, and with it the state that the guard reads.
\<close>

lemma useEffect_keeps:
  "useEffect h = Some (h', again) \<Longrightarrow>
   writeText_env h' = writeText_env h \<and> hasTimeoutChange h' = hasTimeoutChange h \<and>
   options h' = options h \<and> clipboard_calls h' = clipboard_calls h"
  by (auto simp: useEffect_def safeSetState_def
           split: TransitionStatus.splits option.splits if_splits)

lemma render_pass_keeps:
  assumes "hasTimeoutChange h = hasTimeoutChange_memo (options_timeout opts)"
      and "env_text (writeText_env h) = options_text opts"
      and "render_pass opts stateSet h = Some (h', again)"
  shows "writeText_env h' = writeText_env h \<and> hasTimeoutChange h' = hasTimeoutChange h \<and>
         options h' = opts \<and> clipboard_calls h' = clipboard_calls h"
proof -
  define g where "g = h\<lparr>options := opts,
      hasTimeoutChange := hasTimeoutChange_memo (options_timeout opts),
      rendered := rendered h @ [state h]\<rparr>"
  have "render_pass opts stateSet h = (if stateSet then useEffect g else Some (g, False))"
    using assms(1,2) by (simp add: render_pass_def Let_def g_def)
  then show ?thesis
    using assms(1,3) useEffect_keeps [of g h' again]
    by (auto simp: g_def split: if_splits)
qed

lemma render_keeps:
  assumes "hasTimeoutChange h = hasTimeoutChange_memo (options_timeout opts)"
      and "env_text (writeText_env h) = options_text opts"
      and "render opts stateSet h = Some h'"
  shows "writeText_env h' = writeText_env h \<and> clipboard_calls h' = clipboard_calls h"
proof -
  obtain g again where g: "render_pass opts stateSet h = Some (g, again)"
    using assms(3) by (auto simp: render_def split: option.splits)
  note kept = render_pass_keeps [OF assms(1,2) g]
  show ?thesis
  proof (cases again)
    case False
    with g assms(3) kept show ?thesis by (simp add: render_def)
  next
    case True
    with g assms(3) obtain again' where "render_pass opts True g = Some (h', again')"
      by (auto simp: render_def)
    then show ?thesis
      using kept assms(1,2) render_pass_keeps [of g opts True h' again'] by simp
  qed
qed

lemma fold_perform_keeps:
  "writeText_env (fold perform effects h) = writeText_env h \<and>
   hasTimeoutChange (fold perform effects h) = hasTimeoutChange h \<and>
   options (fold perform effects h) = options h"
proof (induction effects arbitrary: h)
  case (Cons x effects)
  have "writeText_env (perform x h) = writeText_env h \<and>
        hasTimeoutChange (perform x h) = hasTimeoutChange h \<and> options (perform x h) = options h"
    by (cases x) (simp_all add: safeSetState_def)
  with Cons show ?case by simp
qed simp

lemma writeText_keeps_closure:
  assumes "hasTimeoutChange h = hasTimeoutChange_memo (options_timeout (options h))"
      and "env_text (writeText_env h) = options_text (options h)"
      and "step (WriteText arg outcome) h = Some h'"
  shows "writeText_env h' = writeText_env h"
proof -
  obtain settled effects where w: "writeText (writeText_env h) (\<lambda>text. outcome) arg = Some (settled, effects)"
    using assms(3) by (auto split: option.splits)
  show ?thesis
  proof (cases "mounted h \<and> list_ex isSafeSetState effects")
    case True
    with w assms(3) have "render (options h) True (fold perform effects h) = Some h'"
      by simp
    then show ?thesis
      using render_keeps [of "fold perform effects h" "options h" True h'] assms(1,2)
      by (simp add: fold_perform_keeps)
  next
    case False
    with w assms(3) show ?thesis
      by (auto simp: fold_perform_keeps)
  qed
qed

lemma writeText_guard_outlives_state:
  assumes "reachable h" and "step (WriteText arg outcome) h = Some h'"
  shows "env_state (writeText_env h') = env_state (writeText_env h)"
proof -
  have "synced h"
    using assms(1) reachable_invariant by (simp add: invariant_def)
  then have "writeText_env h' = writeText_env h"
    using assms(2) by (intro writeText_keeps_closure [of h arg outcome]) (simp_all add: synced_def)
  then show ?thesis by simp
qed

text \<open>
  Claim C1 does not hold of the code. With \<open>timeout: 2000\<close>, a first call moves the
  state to \<open>entered\<close>, the closure still holds the state of the first render, and a
  second call during the 2000 ms writes to the clipboard again and sets the state
  again (which restarts the timer). With three positive durations, a call made in the
  \<open>exiting\<close> phase writes to the clipboard and takes the state back to \<open>entering\<close>.
\<close>

theorem writeText_in_flight_writes_again:
  "map_option (\<lambda>h. (state h, env_state (writeText_env h), clipboard_calls h))
     (run [WriteText NoArg None]
        (mount \<lparr>options_text = Some (Str ''hi''), options_timeout = Some (Number 2000)\<rparr>)) =
     Some (\<lparr>copyStatus = Resolved, transitionStatus = Sequence Entered, error = None\<rparr>,
           defaultState, [''hi'']) \<and>
   map_option (\<lambda>h. (state h, env_state (writeText_env h), clipboard_calls h))
     (run [WriteText NoArg None, WriteText NoArg None]
        (mount \<lparr>options_text = Some (Str ''hi''), options_timeout = Some (Number 2000)\<rparr>)) =
     Some (\<lparr>copyStatus = Resolved, transitionStatus = Sequence Entered, error = None\<rparr>,
           defaultState, [''hi'', ''hi'']) \<and>
   map_option (\<lambda>h. (state h, timer h, clipboard_calls h))
     (run [WriteText NoArg None, TimerFired, TimerFired]
        (mount \<lparr>options_text = Some (Str ''hi''),
                options_timeout =
                  Some (Object \<lparr>entering = Some 100, entered = Some 2000, exiting = Some 250\<rparr>)\<rparr>)) =
     Some (\<lparr>copyStatus = Resolved, transitionStatus = Sequence Exiting, error = None\<rparr>,
           Some \<lparr>timer_delay = 250,
                 timer_setState = \<lparr>copyStatus = Idle, transitionStatus = Exited, error = None\<rparr>\<rparr>,
           [''hi'']) \<and>
   map_option (\<lambda>h. (state h, timer h, clipboard_calls h))
     (run [WriteText NoArg None, TimerFired, TimerFired, WriteText (TextArg (Str ''again'')) None]
        (mount \<lparr>options_text = Some (Str ''hi''),
                options_timeout =
                  Some (Object \<lparr>entering = Some 100, entered = Some 2000, exiting = Some 250\<rparr>)\<rparr>)) =
     Some (\<lparr>copyStatus = Resolved, transitionStatus = Sequence Entering, error = None\<rparr>,
           Some \<lparr>timer_delay = 100,
                 timer_setState = \<lparr>copyStatus = Resolved, transitionStatus = Sequence Entered, error = None\<rparr>\<rparr>,
           [''hi'', ''again''])"
  by (simp add: mount_def writeText_def writeText_try_def defaultState_def
        getTransitionStatus_def getTransitionStatus_loop.simps defaultDurations_def
        defaultNextStatusStates_def render_def render_pass_def Let_def useEffect_def
        safeSetState_def)

section \<open>What the timer shows\<close>

text \<open>
  Claim C3 does not hold of the code. The timer's callback sets the state to the entry
  of the next-status table as it is, without the skip that \<open>writeText\<close> applies. With
  \<open>{entering: 100, entered: 0, exiting: 100}\<close> the state after the first timer is
  \<open>entered\<close>, whose duration is 0, and it stays for the 100 ms of \<open>exiting\<close>, which
  is never shown. With \<open>{entered: 2000, exiting: 0}\<close> the renders show \<open>exiting\<close>,
  whose duration is 0, between \<open>entered\<close> and the return to rest.
\<close>

theorem timer_shows_zero_duration_status:
  "map_option (\<lambda>h. (state h, durations h, timer h))
     (run [WriteText NoArg None, TimerFired]
        (mount \<lparr>options_text = Some (Str ''hi''),
                options_timeout =
                  Some (Object \<lparr>entering = Some 100, entered = Some 0, exiting = Some 100\<rparr>)\<rparr>)) =
     Some (\<lparr>copyStatus = Resolved, transitionStatus = Sequence Entered, error = None\<rparr>,
           \<lparr>entering = 100, entered = 0, exiting = 100\<rparr>,
           Some \<lparr>timer_delay = 100,
                 timer_setState = \<lparr>copyStatus = Idle, transitionStatus = Exited, error = None\<rparr>\<rparr>) \<and>
   map_option (\<lambda>h. (rendered h, durations h))
     (run [WriteText NoArg None, TimerFired]
        (mount \<lparr>options_text = Some (Str ''hi''),
                options_timeout =
                  Some (Object \<lparr>entering = None, entered = Some 2000, exiting = Some 0\<rparr>)\<rparr>)) =
     Some ([defaultState,
            \<lparr>copyStatus = Resolved, transitionStatus = Sequence Entered, error = None\<rparr>,
            \<lparr>copyStatus = Resolved, transitionStatus = Sequence Exiting, error = None\<rparr>,
            defaultState],
           \<lparr>entering = 0, entered = 2000, exiting = 0\<rparr>)"
  by (simp add: mount_def writeText_def writeText_try_def defaultState_def
        getTransitionStatus_def getTransitionStatus_loop.simps defaultDurations_def
        defaultNextStatusStates_def render_def render_pass_def Let_def useEffect_def
        safeSetState_def)

end
